theory Spec2Isabelle
  imports Main "HOL-Library.Sublist"
begin

section \<open>Strings and character classes of the host language\<close>

text \<open>
  The parser of \<^verbatim>\<open>src/utils/vehicleParser.ts\<close> works on JavaScript strings, which are
  sequences of UTF-16 code units. A string is modelled as a \<^typ>\<open>string\<close>, each
  \<^typ>\<open>char\<close> standing for the code unit of the same number, so the model covers the
  texts whose code units lie below 256 (ASCII and Latin-1, which contains the section
  sign \<open>0xA7\<close> the normalizer looks for). \<open>length\<close> is \<^verbatim>\<open>.length\<close>,
  \<open>drop n\<close> is \<^verbatim>\<open>.substring(n)\<close> and \<open>@\<close> is concatenation.
\<close>

definition charCode :: "char \<Rightarrow> nat" where
  "charCode c = of_char c"

text \<open>The regular-expression classes \<^verbatim>\<open>\d\<close>, \<^verbatim>\<open>[A-Z]\<close>, \<^verbatim>\<open>\w\<close> and \<^verbatim>\<open>\s\<close>. The last one is
  also the set of characters that \<^verbatim>\<open>trim()\<close> strips: tab, line feed, vertical tab, form
  feed, carriage return, space and the no-break space.\<close>

definition isDigit :: "char \<Rightarrow> bool" where
  "isDigit c = (48 \<le> charCode c \<and> charCode c \<le> 57)"

definition isUpperAZ :: "char \<Rightarrow> bool" where
  "isUpperAZ c = (65 \<le> charCode c \<and> charCode c \<le> 90)"

definition isLowerAZ :: "char \<Rightarrow> bool" where
  "isLowerAZ c = (97 \<le> charCode c \<and> charCode c \<le> 122)"

definition isWord :: "char \<Rightarrow> bool" where
  "isWord c = (isUpperAZ c \<or> isLowerAZ c \<or> isDigit c \<or> c = CHR ''_'')"

definition isSpace :: "char \<Rightarrow> bool" where
  "isSpace c = ((9 \<le> charCode c \<and> charCode c \<le> 13) \<or> charCode c = 32 \<or> charCode c = 160)"

text \<open>The class \<^verbatim>\<open>[\n\r]\<close> of the line splitter.\<close>

definition isNewline :: "char \<Rightarrow> bool" where
  "isNewline c = (charCode c = 10 \<or> charCode c = 13)"

text \<open>The assertion \<^verbatim>\<open>\b\<close> holds between two neighbouring positions when exactly one
  of them is a word character; the start and the end of the string count as non-word.\<close>

definition isWordOpt :: "char option \<Rightarrow> bool" where
  "isWordOpt p = (case p of None \<Rightarrow> False | Some c \<Rightarrow> isWord c)"

definition wordBoundary :: "char option \<Rightarrow> char option \<Rightarrow> bool" where
  "wordBoundary p n = (isWordOpt p \<noteq> isWordOpt n)"

definition headOpt :: "string \<Rightarrow> char option" where
  "headOpt s = (case s of [] \<Rightarrow> None | c # _ \<Rightarrow> Some c)"

text \<open>\<^verbatim>\<open>String.prototype.toUpperCase\<close>: the letters a to z, and the Latin-1 letters whose
  capital is a Latin-1 code unit, move down by 32; the sharp s becomes \<open>SS\<close>. (The
  capitals of the micro sign \<open>0xB5\<close> and of \<open>0xFF\<close> lie above 255; the two are left as
  they are.)\<close>

definition upperChar :: "char \<Rightarrow> string" where
  "upperChar c = (let n = charCode c in
     if 97 \<le> n \<and> n \<le> 122 then [char_of (n - 32)]
     else if n = 223 then ''SS''
     else if 224 \<le> n \<and> n \<le> 254 \<and> n \<noteq> 247 then [char_of (n - 32)]
     else [c])"

definition toUpperCase :: "string \<Rightarrow> string" where
  "toUpperCase s = concat (map upperChar s)"

text \<open>\<^verbatim>\<open>trim()\<close> removes the white space at both ends.\<close>

definition trim :: "string \<Rightarrow> string" where
  "trim s = rev (dropWhile isSpace (rev (dropWhile isSpace s)))"

text \<open>\<^verbatim>\<open>s.startsWith(p)\<close> and \<^verbatim>\<open>s.includes(p)\<close>.\<close>

fun startsWith :: "string \<Rightarrow> string \<Rightarrow> bool" where
  "startsWith s [] = True"
| "startsWith [] (p # ps) = False"
| "startsWith (c # cs) (p # ps) = (c = p \<and> startsWith cs ps)"

fun includesStr :: "string \<Rightarrow> string \<Rightarrow> bool" where
  "includesStr [] p = startsWith [] p"
| "includesStr (c # cs) p = (startsWith (c # cs) p \<or> includesStr cs p)"

text \<open>\<^verbatim>\<open>s.split(/C+/)\<close> for a character class \<open>C\<close>: the pieces between the maximal runs
  of separator characters. A separator run at the start or at the end of the string
  leaves an empty piece there, and the empty string has the one piece \<open>''''\<close>.\<close>

function splitOn :: "(char \<Rightarrow> bool) \<Rightarrow> string \<Rightarrow> string list" where
  "splitOn sep [] = [[]]"
| "splitOn sep (c # cs) =
     (if sep c then [] # splitOn sep (dropWhile sep cs)
      else (case splitOn sep cs of
              [] \<Rightarrow> [[c]]
            | piece # pieces \<Rightarrow> (c # piece) # pieces))"
  by pat_completeness auto
termination
  by (relation "measure (\<lambda>(sep, s). length s)")
     (auto simp: length_dropWhile_le less_Suc_eq_le)

text \<open>\<^verbatim>\<open>parts.join(' ')\<close>.\<close>

fun joinSpace :: "string list \<Rightarrow> string" where
  "joinSpace [] = []"
| "joinSpace [w] = w"
| "joinSpace (w # v # ws) = w @ '' '' @ joinSpace (v # ws)"

text \<open>\<^verbatim>\<open>parseInt\<close> on a string of decimal digits.\<close>

definition digitValue :: "char \<Rightarrow> int" where
  "digitValue c = int (charCode c) - 48"

definition parseInt :: "string \<Rightarrow> int" where
  "parseInt s = foldl (\<lambda>n c. 10 * n + digitValue c) 0 s"

section \<open>The vehicle parser\<close>

record Vehicle =
  year :: string
  make' :: string
  model :: string
  fullText :: string

definition COMMON_MAKES :: "string list" where
  "COMMON_MAKES =
    [''CHEVROLET'', ''CHEVY'', ''FORD'', ''TOYOTA'', ''HONDA'', ''NISSAN'', ''GMC'', ''RAM'',
     ''JEEP'', ''DODGE'', ''HYUNDAI'', ''KIA'', ''MAZDA'', ''SUBARU'', ''VOLKSWAGEN'', ''VW'',
     ''BMW'', ''MERCEDES'', ''AUDI'', ''LEXUS'', ''ACURA'', ''INFINITI'', ''CADILLAC'',
     ''BUICK'', ''PONTIAC'', ''LINCOLN'', ''MERCURY'', ''CHRYSLER'', ''VOLVO'', ''MITSUBISHI'']"

subsection \<open>fixOCRErrors\<close>

text \<open>\<^verbatim>\<open>replace(/\bJOI\b/g, '201')\<close>: a scan from left to right that carries the character
  before the current position; after a match the scan goes on behind it.\<close>

fun replaceJOI :: "char option \<Rightarrow> string \<Rightarrow> string" where
  "replaceJOI prev (a # b # c # rest) =
     (if a = CHR ''J'' \<and> b = CHR ''O'' \<and> c = CHR ''I''
         \<and> wordBoundary prev (Some a) \<and> wordBoundary (Some c) (headOpt rest)
      then ''201'' @ replaceJOI (Some c) rest
      else a # replaceJOI (Some a) (b # c # rest))"
| "replaceJOI prev s = s"

text \<open>\<^verbatim>\<open>replace(/X/g, r)\<close> for a single character \<open>X\<close>.\<close>

definition replaceChar :: "char \<Rightarrow> char \<Rightarrow> string \<Rightarrow> string" where
  "replaceChar x r s = map (\<lambda>c. if c = x then r else c) s"

text \<open>\<^verbatim>\<open>replace(/\bO\b/g, '0')\<close>.\<close>

fun replaceO :: "char option \<Rightarrow> string \<Rightarrow> string" where
  "replaceO prev [] = []"
| "replaceO prev (c # cs) =
     (if c = CHR ''O'' \<and> wordBoundary prev (Some c) \<and> wordBoundary (Some c) (headOpt cs)
      then CHR ''0'' # replaceO (Some c) cs
      else c # replaceO (Some c) cs)"

definition fixOCRErrors :: "string \<Rightarrow> string" where
  "fixOCRErrors text =
     (let fixed = toUpperCase text;
          fixed = replaceJOI None fixed;
          fixed = replaceChar (CHR 0xA7) (CHR ''2'') fixed;
          fixed = replaceChar (CHR ''|'') (CHR ''1'') fixed;
          fixed = replaceO None fixed
      in fixed)"

subsection \<open>splitMakeModel\<close>

text \<open>The loop over \<open>COMMON_MAKES\<close>, returning at the first make that matches.\<close>

fun splitLoop :: "string \<Rightarrow> string \<Rightarrow> string list \<Rightarrow> string" where
  "splitLoop text upperText [] = text"
| "splitLoop text upperText (mk # makes) =
     (if startsWith upperText mk \<and> length upperText > length mk
      then (let mdl = drop (length mk) text in mk @ '' '' @ mdl)
      else splitLoop text upperText makes)"

definition splitMakeModel :: "string \<Rightarrow> string" where
  "splitMakeModel text = (let upperText = toUpperCase text in splitLoop text upperText COMMON_MAKES)"

subsection \<open>cleanText\<close>

text \<open>\<^verbatim>\<open>replace(/\s+/g, ' ')\<close>: every maximal run of white space becomes one space.\<close>

function collapseSpaces :: "string \<Rightarrow> string" where
  "collapseSpaces [] = []"
| "collapseSpaces (c # cs) =
     (if isSpace c then CHR '' '' # collapseSpaces (dropWhile isSpace cs)
      else c # collapseSpaces cs)"
  by pat_completeness auto
termination
  by (relation "measure length") (auto simp: length_dropWhile_le less_Suc_eq_le)

text \<open>\<^verbatim>\<open>replace(/[^\w\s\-]/g, ' ')\<close>.\<close>

definition blankSpecials :: "string \<Rightarrow> string" where
  "blankSpecials s = map (\<lambda>c. if isWord c \<or> isSpace c \<or> c = CHR ''-'' then c else CHR '' '') s"

definition cleanText :: "string \<Rightarrow> string" where
  "cleanText text = trim (blankSpecials (collapseSpaces text))"

subsection \<open>extractYear\<close>

text \<open>\<^verbatim>\<open>/\b(19\d{2}|20\d{2})\b/\<close> tried at the head of the remaining text, \<open>prev\<close> being the
  character before it.\<close>

fun fourDigitAt :: "char option \<Rightarrow> string \<Rightarrow> bool" where
  "fourDigitAt prev (a # b # c # d # rest) =
     (wordBoundary prev (Some a)
      \<and> ((a = CHR ''1'' \<and> b = CHR ''9'') \<or> (a = CHR ''2'' \<and> b = CHR ''0''))
      \<and> isDigit c \<and> isDigit d
      \<and> wordBoundary (Some d) (headOpt rest))"
| "fourDigitAt prev s = False"

text \<open>\<^verbatim>\<open>text.match(...)\<close> without the global flag: the index of the leftmost match.\<close>

fun fourDigitMatch :: "char option \<Rightarrow> string \<Rightarrow> nat option" where
  "fourDigitMatch prev [] = None"
| "fourDigitMatch prev (c # cs) =
     (if fourDigitAt prev (c # cs) then Some 0
      else map_option Suc (fourDigitMatch (Some c) cs))"

text \<open>\<^verbatim>\<open>/[^\d](\d{2})(?=[A-Z]|\s[A-Z])/\<close> at the head of the remaining text. The match is
  the three characters \<open>p a b\<close>; the lookahead reads on without consuming.\<close>

fun lookaheadLetter :: "string \<Rightarrow> bool" where
  "lookaheadLetter [] = False"
| "lookaheadLetter [x] = isUpperAZ x"
| "lookaheadLetter (x # y # rest) = (isUpperAZ x \<or> (isSpace x \<and> isUpperAZ y))"

fun twoDigitAt :: "string \<Rightarrow> bool" where
  "twoDigitAt (p # a # b # rest) =
     (\<not> isDigit p \<and> isDigit a \<and> isDigit b \<and> lookaheadLetter rest)"
| "twoDigitAt s = False"

fun twoDigitMatch :: "string \<Rightarrow> nat option" where
  "twoDigitMatch [] = None"
| "twoDigitMatch (c # cs) =
     (if twoDigitAt (c # cs) then Some 0
      else map_option Suc (twoDigitMatch cs))"

definition extractYear :: "string \<Rightarrow> (string \<times> string) option" where
  "extractYear text =
     (case fourDigitMatch None text of
        Some index \<Rightarrow> Some (take 4 (drop index text), trim (drop (index + 4) text))
      | None \<Rightarrow>
          (case twoDigitMatch text of
             Some index \<Rightarrow>
               (let match0 = take 3 (drop index text);
                    twoDigit = take 2 (drop (index + 1) text);
                    yearNum = parseInt twoDigit;
                    fullYear = (if yearNum \<ge> 0 \<and> yearNum \<le> 30
                                then ''20'' @ twoDigit else ''19'' @ twoDigit)
                in Some (fullYear,
                         trim (drop (index + length match0 - length twoDigit) text)))
           | None \<Rightarrow> None))"

subsection \<open>parseVehicles\<close>

text \<open>\<^verbatim>\<open>vehicleText.split(/\s+/).filter(word => word.length > 0)\<close>.\<close>

definition splitWords :: "string \<Rightarrow> string list" where
  "splitWords vehicleText = filter (\<lambda>word. length word > 0) (splitOn isSpace vehicleText)"

text \<open>The part of the loop body behind the noise filter: it returns the list of
  vehicles with the record of this line pushed, if the line gives one. The three cases
  of \<open>words\<close> are \<^verbatim>\<open>words.length >= 2\<close>, \<^verbatim>\<open>words.length === 1\<close> and neither.\<close>

definition assemble :: "Vehicle list \<Rightarrow> string \<Rightarrow> Vehicle list" where
  "assemble vehicles trimmedLine =
     (case extractYear trimmedLine of
        Some (yr, restOfText) \<Rightarrow>
          (let vehicleText = splitMakeModel restOfText;
               vehicleText = cleanText vehicleText;
               words = splitWords vehicleText
           in (case words of
                 mk # word # others \<Rightarrow>
                   (let mdl = joinSpace (word # others)
                    in vehicles @ [\<lparr>year = yr, make' = mk, model = mdl,
                                    fullText = yr @ '' '' @ mk @ '' '' @ mdl\<rparr>])
               | [mk] \<Rightarrow>
                   vehicles @ [\<lparr>year = yr, make' = mk, model = '''',
                                fullText = yr @ '' '' @ mk\<rparr>]
               | [] \<Rightarrow> vehicles))
      | None \<Rightarrow>
          (let cleanedLine = cleanText trimmedLine
           in if length cleanedLine > 0
              then vehicles @ [\<lparr>year = '''', make' = '''', model = '''', fullText = cleanedLine\<rparr>]
              else vehicles))"

text \<open>The test that makes the loop \<^verbatim>\<open>continue\<close>.\<close>

definition skipLine :: "string \<Rightarrow> bool" where
  "skipLine trimmedLine =
     (length trimmedLine < 5 \<or> includesStr trimmedLine ''YARD'' \<or> includesStr trimmedLine ''ROW''
      \<or> includesStr trimmedLine ''LOCAT'' \<or> includesStr trimmedLine ''Vehicle'')"

definition lineStep :: "Vehicle list \<Rightarrow> string \<Rightarrow> Vehicle list" where
  "lineStep vehicles line =
     (let trimmedLine = trim line
      in if skipLine trimmedLine then vehicles else assemble vehicles trimmedLine)"

fun parseLoop :: "Vehicle list \<Rightarrow> string list \<Rightarrow> Vehicle list" where
  "parseLoop vehicles [] = vehicles"
| "parseLoop vehicles (line # lines) = parseLoop (lineStep vehicles line) lines"

definition segmentLines :: "string \<Rightarrow> string list" where
  "segmentLines fixedText = filter (\<lambda>line. length (trim line) > 0) (splitOn isNewline fixedText)"

definition parseVehicles :: "string \<Rightarrow> Vehicle list" where
  "parseVehicles text =
     (let fixedText = fixOCRErrors text;
          lines = segmentLines fixedText
      in parseLoop [] lines)"

section \<open>Notions of the specification\<close>

subsection \<open>The parser without the mixed-case marker\<close>

text \<open>The variant of \<open>parseVehicles\<close> in which the test \<^verbatim>\<open>includes('Vehicle')\<close> is removed
  from the filter; everything else is shared with the parser.\<close>

definition skipLine_noVehicle :: "string \<Rightarrow> bool" where
  "skipLine_noVehicle trimmedLine =
     (length trimmedLine < 5 \<or> includesStr trimmedLine ''YARD'' \<or> includesStr trimmedLine ''ROW''
      \<or> includesStr trimmedLine ''LOCAT'')"

definition lineStep_noVehicle :: "Vehicle list \<Rightarrow> string \<Rightarrow> Vehicle list" where
  "lineStep_noVehicle vehicles line =
     (let trimmedLine = trim line
      in if skipLine_noVehicle trimmedLine then vehicles else assemble vehicles trimmedLine)"

fun parseLoop_noVehicle :: "Vehicle list \<Rightarrow> string list \<Rightarrow> Vehicle list" where
  "parseLoop_noVehicle vehicles [] = vehicles"
| "parseLoop_noVehicle vehicles (line # lines) =
     parseLoop_noVehicle (lineStep_noVehicle vehicles line) lines"

definition parseVehicles_noVehicle :: "string \<Rightarrow> Vehicle list" where
  "parseVehicles_noVehicle text =
     (let fixedText = fixOCRErrors text;
          lines = segmentLines fixedText
      in parseLoop_noVehicle [] lines)"

subsection \<open>Tokens by position\<close>

text \<open>The character at a position and the one before it, if there is one.\<close>

definition charAt :: "string \<Rightarrow> nat \<Rightarrow> char option" where
  "charAt text i = (if i < length text then Some (text ! i) else None)"

definition charBefore :: "string \<Rightarrow> nat \<Rightarrow> char option" where
  "charBefore text i = (if i = 0 then None else charAt text (i - 1))"

definition isDigitOpt :: "char option \<Rightarrow> bool" where
  "isDigitOpt p = (case p of None \<Rightarrow> False | Some c \<Rightarrow> isDigit c)"

definition isUpperOpt :: "char option \<Rightarrow> bool" where
  "isUpperOpt p = (case p of None \<Rightarrow> False | Some c \<Rightarrow> isUpperAZ c)"

definition isSpaceOpt :: "char option \<Rightarrow> bool" where
  "isSpaceOpt p = (case p of None \<Rightarrow> False | Some c \<Rightarrow> isSpace c)"

text \<open>A four-digit token \<open>19xx\<close> or \<open>20xx\<close> that begins at position \<open>i\<close> and has a word
  boundary on either side.\<close>

definition yearTokenAt :: "string \<Rightarrow> nat \<Rightarrow> bool" where
  "yearTokenAt text i =
     (i + 4 \<le> length text
      \<and> (take 2 (drop i text) = ''19'' \<or> take 2 (drop i text) = ''20'')
      \<and> isDigitOpt (charAt text (i + 2)) \<and> isDigitOpt (charAt text (i + 3))
      \<and> \<not> isWordOpt (charBefore text i) \<and> \<not> isWordOpt (charAt text (i + 4)))"

text \<open>A two-digit token that begins at position \<open>k\<close> and is followed by a capital
  letter, directly or behind one white-space character.\<close>

definition twoDigitTokenAt :: "string \<Rightarrow> nat \<Rightarrow> bool" where
  "twoDigitTokenAt text k =
     (isDigitOpt (charAt text k) \<and> isDigitOpt (charAt text (k + 1))
      \<and> (isUpperOpt (charAt text (k + 2))
         \<or> (isSpaceOpt (charAt text (k + 2)) \<and> isUpperOpt (charAt text (k + 3)))))"

text \<open>Such a token is year-like when no digit stands before it: it begins the
  text, or the character before it is not a digit.\<close>

definition yearLikePairAt :: "string \<Rightarrow> nat \<Rightarrow> bool" where
  "yearLikePairAt text k = (twoDigitTokenAt text k \<and> \<not> isDigitOpt (charBefore text k))"

subsection \<open>Years, year-only lines and the splitter as the specification words it\<close>

text \<open>A numeral of four digits between 1900 and 2099.\<close>

definition isYearNumeral :: "string \<Rightarrow> bool" where
  "isYearNumeral y = (length y = 4 \<and> list_all isDigit y \<and> 1900 \<le> parseInt y \<and> parseInt y \<le> 2099)"

text \<open>A trimmed line on which the year is found and nothing is left behind it after
  splitting and cleaning.\<close>

definition yearOnly :: "string \<Rightarrow> bool" where
  "yearOnly trimmedLine =
     (case extractYear trimmedLine of
        None \<Rightarrow> False
      | Some (yr, restOfText) \<Rightarrow> splitWords (cleanText (splitMakeModel restOfText)) = [])"

text \<open>The noise test of the filter on the markers of the upper-cased text.\<close>

definition noiseLine :: "string \<Rightarrow> bool" where
  "noiseLine trimmedLine =
     (length trimmedLine < 5 \<or> includesStr trimmedLine ''YARD'' \<or> includesStr trimmedLine ''ROW''
      \<or> includesStr trimmedLine ''LOCAT'')"

text \<open>The splitter in the words of the specification: the first listed make that is a
  strict prefix of the upper-cased text gets a space put behind it in the text.\<close>

definition splitMakeModel_spec :: "string \<Rightarrow> string" where
  "splitMakeModel_spec text =
     (case find (\<lambda>mk. strict_prefix mk (toUpperCase text)) COMMON_MAKES of
        None \<Rightarrow> text
      | Some mk \<Rightarrow> take (length mk) text @ '' '' @ drop (length mk) text)"

section \<open>Facts about the string operations\<close>

subsection \<open>Prefixes, substrings and the characters of a result\<close>

lemma startsWith_prefix: "startsWith s p = prefix p s"
  by (induction s p rule: startsWith.induct) auto

lemma startsWith_set: "startsWith s p \<Longrightarrow> set p \<subseteq> set s"
  by (induction s p rule: startsWith.induct) auto

lemma includesStr_set: "includesStr s p \<Longrightarrow> set p \<subseteq> set s"
proof (induction s)
  case Nil
  then show ?case using startsWith_set by fastforce
next
  case (Cons c cs)
  then show ?case using startsWith_set[of "c # cs" p] by auto
qed

lemma trim_set: "set (trim s) \<subseteq> set s"
proof -
  have "set (trim s) = set (dropWhile isSpace (rev (dropWhile isSpace s)))"
    by (simp add: trim_def)
  also have "\<dots> \<subseteq> set (rev (dropWhile isSpace s))"
    by (meson set_dropWhileD subsetI)
  also have "\<dots> \<subseteq> set s"
    using set_dropWhileD by fastforce
  finally show ?thesis .
qed

lemma splitOn_not_Nil: "splitOn sep s \<noteq> []"
  by (induction sep s rule: splitOn.induct) (auto split: list.splits)

lemma splitOn_set: "piece \<in> set (splitOn sep s) \<Longrightarrow> set piece \<subseteq> set s"
proof (induction sep s arbitrary: piece rule: splitOn.induct)
  case (1 sep)
  then show ?case by simp
next
  case (2 sep c cs)
  show ?case
  proof (cases "sep c")
    case True
    with 2 have "piece = [] \<or> piece \<in> set (splitOn sep (dropWhile sep cs))" by simp
    then show ?thesis
    proof
      assume "piece = []" then show ?thesis by simp
    next
      assume "piece \<in> set (splitOn sep (dropWhile sep cs))"
      then have "set piece \<subseteq> set (dropWhile sep cs)" using 2(1)[OF True] by blast
      then show ?thesis using set_dropWhileD by fastforce
    qed
  next
    case False
    obtain p ps where ps: "splitOn sep cs = p # ps"
      using splitOn_not_Nil by (cases "splitOn sep cs") auto
    with False 2(3) have "piece = c # p \<or> piece \<in> set ps" by simp
    then show ?thesis
    proof
      assume "piece = c # p"
      moreover have "set p \<subseteq> set cs" using 2(2)[OF False, of p] ps by simp
      ultimately show ?thesis by auto
    next
      assume "piece \<in> set ps"
      then have "set piece \<subseteq> set cs" using 2(2)[OF False, of piece] ps by simp
      then show ?thesis by auto
    qed
  qed
qed

lemma segmentLines_set: "line \<in> set (segmentLines s) \<Longrightarrow> set line \<subseteq> set s"
  by (auto simp: segmentLines_def dest: splitOn_set)

lemma replaceJOI_set: "set (replaceJOI prev s) \<subseteq> set s \<union> set ''201''"
  by (induction prev s rule: replaceJOI.induct) auto

lemma replaceO_set: "set (replaceO prev s) \<subseteq> set s \<union> {CHR ''0''}"
  by (induction prev s rule: replaceO.induct) auto

lemma replaceChar_set: "set (replaceChar x r s) \<subseteq> set s \<union> {r}"
  by (auto simp: replaceChar_def)

subsection \<open>No lower-case letter survives the normalizer\<close>

lemma charCode_char_of: "n < 256 \<Longrightarrow> charCode (char_of n) = n"
  by (simp add: charCode_def)

lemma charCode_S: "charCode CHR ''S'' = 83"
  by (simp add: charCode_def)

lemma upperChar_not_lower: "c' \<in> set (upperChar c) \<Longrightarrow> \<not> isLowerAZ c'"
  by (auto simp: upperChar_def Let_def isLowerAZ_def charCode_char_of charCode_S split: if_splits)

lemma toUpperCase_not_lower: "c \<in> set (toUpperCase s) \<Longrightarrow> \<not> isLowerAZ c"
  by (auto simp: toUpperCase_def dest: upperChar_not_lower)

lemma fixOCRErrors_not_lower: "c \<in> set (fixOCRErrors text) \<Longrightarrow> \<not> isLowerAZ c"
proof -
  assume c: "c \<in> set (fixOCRErrors text)"
  let ?u = "toUpperCase text"
  let ?j = "replaceJOI None ?u"
  let ?s = "replaceChar (CHR 0xA7) (CHR ''2'') ?j"
  let ?p = "replaceChar (CHR ''|'') (CHR ''1'') ?s"
  have "c \<in> set (replaceO None ?p)" using c by (simp add: fixOCRErrors_def)
  then have "c \<in> set ?p \<or> c = CHR ''0''" using replaceO_set by fastforce
  then have "c \<in> set ?s \<or> c = CHR ''1'' \<or> c = CHR ''0''" using replaceChar_set by fastforce
  then have "c \<in> set ?j \<or> c = CHR ''2'' \<or> c = CHR ''1'' \<or> c = CHR ''0''"
    using replaceChar_set by fastforce
  then have "c \<in> set ?u \<or> c = CHR ''2'' \<or> c = CHR ''1'' \<or> c = CHR ''0''"
    using replaceJOI_set[of None ?u] by auto
  then show ?thesis
    using toUpperCase_not_lower by (auto simp: isLowerAZ_def charCode_def)
qed

lemma no_Vehicle_marker:
  assumes "\<forall>c\<in>set s. \<not> isLowerAZ c" shows "\<not> includesStr s ''Vehicle''"
proof
  assume "includesStr s ''Vehicle''"
  then have "CHR ''e'' \<in> set s" using includesStr_set by fastforce
  with assms show False by (auto simp: isLowerAZ_def charCode_def)
qed

subsection \<open>Digits and numerals\<close>

lemma isDigit_isWord: "isDigit c \<Longrightarrow> isWord c"
  by (simp add: isWord_def)

lemma digitValue_range: "isDigit c \<Longrightarrow> 0 \<le> digitValue c \<and> digitValue c \<le> 9"
  by (auto simp: isDigit_def digitValue_def)

lemma digitValue_literals:
  "digitValue CHR ''0'' = 0" "digitValue CHR ''1'' = 1"
  "digitValue CHR ''2'' = 2" "digitValue CHR ''9'' = 9"
  by (simp_all add: digitValue_def charCode_def)

lemma isDigit_literals:
  "isDigit CHR ''0''" "isDigit CHR ''1''" "isDigit CHR ''2''" "isDigit CHR ''9''"
  by (simp_all add: isDigit_def charCode_def)

lemma parseInt_4: "parseInt [a, b, c, d] = 1000 * digitValue a + 100 * digitValue b + 10 * digitValue c + digitValue d"
  by (simp add: parseInt_def)

lemma parseInt_2: "parseInt [a, b] = 10 * digitValue a + digitValue b"
  by (simp add: parseInt_def)

subsection \<open>The make loop\<close>

lemma startsWith_strict_prefix:
  "(startsWith u mk \<and> length u > length mk) = strict_prefix mk u"
  by (auto simp: startsWith_prefix strict_prefix_def prefix_def)

lemma splitLoop_find:
  "splitLoop text u makes =
     (case find (\<lambda>mk. strict_prefix mk u) makes of
        None \<Rightarrow> text
      | Some mk \<Rightarrow> mk @ '' '' @ drop (length mk) text)"
  by (induction makes) (simp_all add: startsWith_strict_prefix)

section \<open>Matches by position\<close>

text \<open>The two scans of \<open>extractYear\<close> walk down the list; the specification speaks
  of positions in the text. The lemmas of this section connect the two views.\<close>

lemma headOpt_drop: "headOpt (drop k s) = charAt s k"
  by (cases "k < length s") (simp_all add: headOpt_def charAt_def Cons_nth_drop_Suc[symmetric])

lemma drop_Cons_charAt:
  "drop i s = c # r \<Longrightarrow> charAt s i = Some c \<and> drop (Suc i) s = r"
proof -
  assume a: "drop i s = c # r"
  then have "i < length s" by (cases "i < length s") auto
  then have "drop i s = s ! i # drop (Suc i) s" by (simp add: Cons_nth_drop_Suc)
  with a \<open>i < length s\<close> show ?thesis by (simp add: charAt_def)
qed

lemma charAt_drop_Cons:
  "charAt s i = Some c \<Longrightarrow> drop i s = c # drop (Suc i) s"
  by (auto simp: charAt_def Cons_nth_drop_Suc split: if_splits)

lemma fourDigitAt_shape:
  "fourDigitAt prev r =
     (\<exists>a b c d rest. r = a # b # c # d # rest
        \<and> ((a = CHR ''1'' \<and> b = CHR ''9'') \<or> (a = CHR ''2'' \<and> b = CHR ''0''))
        \<and> isDigit c \<and> isDigit d
        \<and> \<not> isWordOpt prev \<and> \<not> isWordOpt (headOpt rest))"
proof -
  have d1: "isDigit CHR ''1''" and d2: "isDigit CHR ''2''"
    by (simp_all add: isDigit_def charCode_def)
  show ?thesis
    by (cases "(prev, r)" rule: fourDigitAt.cases)
       (auto simp: wordBoundary_def isWordOpt_def isDigit_isWord d1 d2)
qed

lemma twoDigitAt_shape:
  "twoDigitAt r =
     (\<exists>p a b rest. r = p # a # b # rest
        \<and> \<not> isDigit p \<and> isDigit a \<and> isDigit b \<and> lookaheadLetter rest)"
  by (cases r rule: twoDigitAt.cases) auto

lemma lookaheadLetter_headOpt:
  "lookaheadLetter r =
     (isUpperOpt (headOpt r) \<or> (isSpaceOpt (headOpt r) \<and> isUpperOpt (headOpt (drop 1 r))))"
  by (cases r rule: lookaheadLetter.cases)
     (auto simp: headOpt_def isUpperOpt_def isSpaceOpt_def)

lemma fourDigitAt_yearTokenAt:
  "fourDigitAt (charBefore text i) (drop i text) = yearTokenAt text i"
proof
  assume "fourDigitAt (charBefore text i) (drop i text)"
  then obtain a b c d rest where r: "drop i text = a # b # c # d # rest"
    and ab: "(a = CHR ''1'' \<and> b = CHR ''9'') \<or> (a = CHR ''2'' \<and> b = CHR ''0'')"
    and cd: "isDigit c" "isDigit d"
    and bd: "\<not> isWordOpt (charBefore text i)" "\<not> isWordOpt (headOpt rest)"
    unfolding fourDigitAt_shape by blast
  from r have 1: "drop (Suc i) text = b # c # d # rest" using drop_Cons_charAt by blast
  then have 2: "charAt text (Suc i) = Some b" "drop (Suc (Suc i)) text = c # d # rest"
    using drop_Cons_charAt by blast+
  then have 3: "charAt text (i + 2) = Some c" "drop (i + 3) text = d # rest"
    using drop_Cons_charAt[of "Suc (Suc i)" "text" c "d # rest"] by (simp_all add: numeral_3_eq_3)
  then have 4: "charAt text (i + 3) = Some d" "drop (i + 4) text = rest"
    using drop_Cons_charAt[of "i + 3" "text" d rest] by (simp_all add: numeral_eq_Suc)
  have len: "i + 4 \<le> length text"
  proof -
    have "length (drop i text) = length (a # b # c # d # rest)" using r by simp
    then show ?thesis by simp
  qed
  show "yearTokenAt text i"
    using r ab cd bd 3 4 len headOpt_drop[of "i + 4" "text"]
    by (auto simp: yearTokenAt_def isDigitOpt_def)
next
  assume y: "yearTokenAt text i"
  then have len: "i + 4 \<le> length text" by (simp add: yearTokenAt_def)
  then have r: "drop i text = text ! i # text ! (i + 1) # text ! (i + 2) # text ! (i + 3) # drop (i + 4) text"
    by (simp add: Cons_nth_drop_Suc[symmetric] numeral_eq_Suc)
  show "fourDigitAt (charBefore text i) (drop i text)"
    unfolding fourDigitAt_shape
    using y len r headOpt_drop[of "i + 4" "text"]
    by (auto simp: yearTokenAt_def isDigitOpt_def charAt_def)
qed

lemma fourDigitMatch_Some:
  "fourDigitMatch prev s = Some i \<Longrightarrow>
     fourDigitAt (if i = 0 then prev else charAt s (i - 1)) (drop i s)
     \<and> (\<forall>j<i. \<not> fourDigitAt (if j = 0 then prev else charAt s (j - 1)) (drop j s))"
proof (induction s arbitrary: prev i)
  case Nil
  then show ?case by simp
next
  case (Cons c cs)
  show ?case
  proof (cases "fourDigitAt prev (c # cs)")
    case True
    with Cons.prems show ?thesis by simp
  next
    case False
    with Cons.prems obtain i' where i': "fourDigitMatch (Some c) cs = Some i'" "i = Suc i'"
      by auto
    note ih = Cons.IH[OF i'(1)]
    have pre: "(if j = 0 then Some c else charAt cs (j - 1)) = charAt (c # cs) j" for j
      by (cases j) (auto simp: charAt_def)
    have "fourDigitAt (charAt (c # cs) i') (drop i' cs)" using ih pre by simp
    moreover have "\<not> fourDigitAt (if j = 0 then prev else charAt (c # cs) (j - 1)) (drop j (c # cs))"
      if "j < i" for j
    proof (cases j)
      case 0
      then show ?thesis using False by simp
    next
      case (Suc j')
      then have "j' < i'" using that i'(2) by simp
      then have "\<not> fourDigitAt (charAt (c # cs) j') (drop j' cs)" using ih pre by simp
      then show ?thesis using Suc by simp
    qed
    ultimately show ?thesis using i'(2) by simp
  qed
qed

lemma fourDigitMatch_None:
  "fourDigitMatch prev s = None \<Longrightarrow>
     \<not> fourDigitAt (if j = 0 then prev else charAt s (j - 1)) (drop j s)"
proof (induction s arbitrary: prev j)
  case Nil
  then show ?case by simp
next
  case (Cons c cs)
  from Cons.prems have no: "\<not> fourDigitAt prev (c # cs)" and rest: "fourDigitMatch (Some c) cs = None"
    by (auto split: if_splits)
  show ?case
  proof (cases j)
    case 0
    then show ?thesis using no by simp
  next
    case (Suc j')
    have "(if j' = 0 then Some c else charAt cs (j' - 1)) = charAt (c # cs) j'"
      by (cases j') (auto simp: charAt_def)
    then show ?thesis using Cons.IH[OF rest, of j'] Suc by simp
  qed
qed

lemma fourDigitMatch_yearToken:
  "fourDigitMatch None text = Some i \<Longrightarrow> yearTokenAt text i \<and> (\<forall>j<i. \<not> yearTokenAt text j)"
  using fourDigitMatch_Some[of None "text" i]
  by (simp add: fourDigitAt_yearTokenAt[symmetric] charBefore_def)

lemma fourDigitMatch_no_yearToken:
  "fourDigitMatch None text = None \<Longrightarrow> \<not> yearTokenAt text j"
  using fourDigitMatch_None[of None "text" j]
  by (simp add: fourDigitAt_yearTokenAt[symmetric] charBefore_def)

lemma fourDigitMatch_first:
  assumes "yearTokenAt text i" and "\<forall>j<i. \<not> yearTokenAt text j"
  shows "fourDigitMatch None text = Some i"
proof (cases "fourDigitMatch None text")
  case None
  then show ?thesis using fourDigitMatch_no_yearToken assms(1) by blast
next
  case (Some i')
  then have "yearTokenAt text i'" and "\<forall>j<i'. \<not> yearTokenAt text j"
    using fourDigitMatch_yearToken by blast+
  with assms have "i' = i" by (meson linorder_neqE_nat)
  with Some show ?thesis by simp
qed

lemma twoDigitMatch_Some:
  "twoDigitMatch s = Some i \<Longrightarrow> twoDigitAt (drop i s) \<and> (\<forall>j<i. \<not> twoDigitAt (drop j s))"
proof (induction s arbitrary: i)
  case Nil
  then show ?case by simp
next
  case (Cons c cs)
  show ?case
  proof (cases "twoDigitAt (c # cs)")
    case True
    with Cons.prems show ?thesis by simp
  next
    case False
    with Cons.prems obtain i' where i': "twoDigitMatch cs = Some i'" "i = Suc i'"
      by auto
    note ih = Cons.IH[OF i'(1)]
    have "\<not> twoDigitAt (drop j (c # cs))" if "j < i" for j
      using that False ih i'(2) by (cases j) auto
    then show ?thesis using ih i'(2) by simp
  qed
qed

lemma twoDigitMatch_None: "twoDigitMatch s = None \<Longrightarrow> \<not> twoDigitAt (drop j s)"
proof (induction s arbitrary: j)
  case Nil
  then show ?case by simp
next
  case (Cons c cs)
  then show ?case by (cases j) (auto split: if_splits)
qed

lemma twoDigitAt_token:
  "twoDigitAt (drop j text) =
     ((\<exists>p. charAt text j = Some p \<and> \<not> isDigit p) \<and> twoDigitTokenAt text (j + 1))"
proof
  assume "twoDigitAt (drop j text)"
  then obtain p a b rest where r: "drop j text = p # a # b # rest"
    and c: "\<not> isDigit p" "isDigit a" "isDigit b" "lookaheadLetter rest"
    unfolding twoDigitAt_shape by blast
  from r have 0: "charAt text j = Some p" "drop (j + 1) text = a # b # rest"
    using drop_Cons_charAt[of j "text" p "a # b # rest"] by simp_all
  then have 1: "charAt text (j + 1) = Some a" "drop (j + 2) text = b # rest"
    using drop_Cons_charAt[of "j + 1" "text" a "b # rest"] by simp_all
  then have 2: "charAt text (j + 2) = Some b" "drop (j + 3) text = rest"
    using drop_Cons_charAt[of "j + 2" "text" b rest] by (simp_all add: numeral_eq_Suc)
  have "lookaheadLetter (drop (j + 3) text)" using c 2 by simp
  then have "isUpperOpt (charAt text (j + 3))
       \<or> (isSpaceOpt (charAt text (j + 3)) \<and> isUpperOpt (charAt text (j + 4)))"
    unfolding lookaheadLetter_headOpt by (simp add: headOpt_drop add.commute)
  then show "(\<exists>p. charAt text j = Some p \<and> \<not> isDigit p) \<and> twoDigitTokenAt text (j + 1)"
    using 0 1 2 c by (simp add: twoDigitTokenAt_def isDigitOpt_def numeral_eq_Suc)
next
  assume a: "(\<exists>p. charAt text j = Some p \<and> \<not> isDigit p) \<and> twoDigitTokenAt text (j + 1)"
  then obtain p where p: "charAt text j = Some p" "\<not> isDigit p" by blast
  from a obtain x y where x: "charAt text (j + 1) = Some x" "isDigit x"
    and y: "charAt text (j + 2) = Some y" "isDigit y"
    and la: "isUpperOpt (charAt text (j + 3))
       \<or> (isSpaceOpt (charAt text (j + 3)) \<and> isUpperOpt (charAt text (j + 4)))"
    by (auto simp: twoDigitTokenAt_def isDigitOpt_def numeral_eq_Suc split: option.splits)
  have "drop j text = p # x # y # drop (j + 3) text"
    using charAt_drop_Cons[OF p(1)] charAt_drop_Cons[OF x(1)] charAt_drop_Cons[OF y(1)]
    by (simp add: numeral_eq_Suc)
  moreover have "lookaheadLetter (drop (j + 3) text)"
    unfolding lookaheadLetter_headOpt using la by (simp add: headOpt_drop add.commute)
  ultimately show "twoDigitAt (drop j text)"
    using p x y by simp
qed

lemma twoDigitMatch_token:
  assumes "twoDigitMatch text = Some i"
  shows "(\<exists>p. charAt text i = Some p \<and> \<not> isDigit p) \<and> twoDigitTokenAt text (i + 1)"
  using twoDigitMatch_Some[OF assms] twoDigitAt_token by blast

lemma twoDigitMatch_yearLike:
  assumes "twoDigitMatch text = Some i"
  shows "yearLikePairAt text (i + 1)"
  using twoDigitMatch_token[OF assms]
  by (auto simp: yearLikePairAt_def charBefore_def isDigitOpt_def)

lemma yearTokenAt_bound: "yearTokenAt text i \<Longrightarrow> i < length text"
  by (simp add: yearTokenAt_def)

lemma yearLikePairAt_bound: "yearLikePairAt text k \<Longrightarrow> k < length text"
  by (auto simp: yearLikePairAt_def twoDigitTokenAt_def isDigitOpt_def charAt_def split: if_splits)

lemma twoDigitMatch_None_yearLike:
  assumes "twoDigitMatch text = None" and "yearLikePairAt text k"
  shows "k = 0"
proof (rule ccontr)
  assume "k \<noteq> 0"
  then obtain j where k: "k = j + 1" by (cases k) auto
  from assms(2) have tok: "twoDigitTokenAt text (j + 1)" and nd: "\<not> isDigitOpt (charAt text j)"
    by (simp_all add: yearLikePairAt_def charBefore_def k)
  from assms(2) have "k < length text" by (rule yearLikePairAt_bound)
  then obtain p where p: "charAt text j = Some p" by (simp add: charAt_def k)
  with nd have "\<not> isDigit p" by (simp add: isDigitOpt_def)
  with p tok have "twoDigitAt (drop j text)" unfolding twoDigitAt_token by blast
  with twoDigitMatch_None[OF assms(1)] show False by blast
qed

subsection \<open>The year that is returned\<close>

lemma fourDigit_year:
  assumes "fourDigitMatch None t = Some i"
  shows "isYearNumeral (take 4 (drop i t))"
proof -
  from fourDigitMatch_Some[OF assms]
  obtain a b c d rest where r: "drop i t = a # b # c # d # rest"
    and ab: "(a = CHR ''1'' \<and> b = CHR ''9'') \<or> (a = CHR ''2'' \<and> b = CHR ''0'')"
    and cd: "isDigit c" "isDigit d"
    unfolding fourDigitAt_shape by blast
  have y: "take 4 (drop i t) = [a, b, c, d]" using r by simp
  show ?thesis
    unfolding y isYearNumeral_def parseInt_4
    using ab cd digitValue_range[OF cd(1)] digitValue_range[OF cd(2)]
    by (auto simp: digitValue_literals isDigit_literals)
qed

lemma twoDigit_year:
  assumes "twoDigitMatch t = Some i"
  shows "\<exists>p a b rest. drop i t = p # a # b # rest \<and> isDigit a \<and> isDigit b
           \<and> take 3 (drop i t) = [p, a, b] \<and> take 2 (drop (i + 1) t) = [a, b]"
proof -
  from twoDigitMatch_Some[OF assms]
  obtain p a b rest where r: "drop i t = p # a # b # rest" and ab: "isDigit a" "isDigit b"
    unfolding twoDigitAt_shape by blast
  have "drop (i + 1) t = a # b # rest" using drop_Cons_charAt[OF r] by simp
  then show ?thesis using r ab by simp
qed

lemma twoDigit_fullYear:
  assumes "isDigit a" "isDigit b"
  shows "isYearNumeral ((if parseInt [a, b] \<ge> 0 \<and> parseInt [a, b] \<le> 30 then ''20'' else ''19'') @ [a, b])"
  unfolding isYearNumeral_def
  using assms digitValue_range[OF assms(1)] digitValue_range[OF assms(2)]
  by (auto simp: parseInt_def digitValue_literals isDigit_literals)

lemma extractYear_year: "extractYear t = Some (y, r) \<Longrightarrow> isYearNumeral y"
proof (cases "fourDigitMatch None t")
  case (Some i)
  assume "extractYear t = Some (y, r)"
  with Some have "y = take 4 (drop i t)" by (simp add: extractYear_def)
  then show ?thesis using fourDigit_year[OF Some] by simp
next
  case None
  assume e: "extractYear t = Some (y, r)"
  with None obtain i where i: "twoDigitMatch t = Some i"
    by (cases "twoDigitMatch t") (auto simp: extractYear_def)
  from twoDigit_year[OF i] obtain p a b rest where
    ab: "isDigit a" "isDigit b" and tw: "take 2 (drop (i + 1) t) = [a, b]" by blast
  from e None i tw have "y = (if parseInt [a, b] \<ge> 0 \<and> parseInt [a, b] \<le> 30 then ''20'' else ''19'') @ [a, b]"
    by (auto simp: extractYear_def Let_def)
  then show ?thesis using twoDigit_fullYear[OF ab] by simp
qed

section \<open>The loop over the lines\<close>

lemma parseLoop_invariant:
  assumes step: "\<And>vs line. \<forall>v\<in>set vs. P v \<Longrightarrow> \<forall>v\<in>set (lineStep vs line). P v"
    and init: "\<forall>v\<in>set vehicles. P v"
  shows "\<forall>v\<in>set (parseLoop vehicles lines). P v"
  using init
proof (induction lines arbitrary: vehicles)
  case Nil
  then show ?case by simp
next
  case (Cons line lines)
  show ?case using Cons.IH[OF step[OF Cons.prems]] by simp
qed

lemma parseLoop_filter:
  assumes "\<And>vs line. Q line \<Longrightarrow> lineStep vs line = vs"
  shows "parseLoop vehicles lines = parseLoop vehicles (filter (\<lambda>line. \<not> Q line) lines)"
  by (induction lines arbitrary: vehicles) (auto simp: assms)

lemma parseLoop_noVehicle_eq:
  "(\<And>line. line \<in> set lines \<Longrightarrow> \<not> includesStr (trim line) ''Vehicle'')
   \<Longrightarrow> parseLoop vehicles lines = parseLoop_noVehicle vehicles lines"
  by (induction lines arbitrary: vehicles)
     (auto simp: lineStep_def lineStep_noVehicle_def skipLine_def skipLine_noVehicle_def Let_def)

lemma assemble_cases:
  "assemble vehicles t = vehicles \<or> (\<exists>v. assemble vehicles t = vehicles @ [v] \<and>
      ((\<exists>yr r mk. extractYear t = Some (yr, r) \<and> year v = yr \<and> fullText v = yr @ '' '' @ mk)
       \<or> (extractYear t = None \<and> year v = [] \<and> make' v = [] \<and> model v = []
            \<and> fullText v = cleanText t \<and> cleanText t \<noteq> [])))"
  unfolding assemble_def Let_def
  by (auto split: option.splits list.splits prod.splits)

lemma lineStep_cases:
  "lineStep vehicles line = vehicles \<or> (\<exists>v. lineStep vehicles line = vehicles @ [v] \<and>
      ((\<exists>yr r mk. extractYear (trim line) = Some (yr, r) \<and> year v = yr \<and> fullText v = yr @ '' '' @ mk)
       \<or> (extractYear (trim line) = None \<and> year v = [] \<and> make' v = [] \<and> model v = []
            \<and> fullText v = cleanText (trim line) \<and> cleanText (trim line) \<noteq> [])))"
  using assemble_cases[of vehicles "trim line"]
  by (auto simp: lineStep_def Let_def)

lemma lineStep_noise: "noiseLine (trim line) \<Longrightarrow> lineStep vs line = vs"
  by (auto simp: lineStep_def noiseLine_def skipLine_def)

lemma assemble_yearOnly: "yearOnly t \<Longrightarrow> assemble vs t = vs"
  by (auto simp: yearOnly_def assemble_def split: option.splits)

lemma lineStep_yearOnly: "yearOnly (trim line) \<Longrightarrow> lineStep vs line = vs"
  by (simp add: lineStep_def Let_def assemble_yearOnly)

lemma lineStep_fallback:
  assumes "extractYear (trim line) = None" and "\<not> skipLine (trim line)"
  shows "lineStep vehicles line =
     (if cleanText (trim line) = [] then vehicles
      else vehicles @ [\<lparr>year = '''', make' = '''', model = '''', fullText = cleanText (trim line)\<rparr>])"
  using assms by (simp add: lineStep_def assemble_def Let_def)

section \<open>Lines without content and the remainder of the two-digit rule\<close>

text \<open>A text that cleans to the empty string has no digit, hence no year.\<close>

lemma isDigit_not_isSpace: "isDigit c \<Longrightarrow> \<not> isSpace c"
  by (auto simp: isDigit_def isSpace_def)

lemma trim_keeps_two:
  assumes "\<not> isSpace a" and "\<not> isSpace b"
  shows "trim (a # b # rest) = a # b # rev (dropWhile isSpace (rev rest))"
proof -
  have "dropWhile isSpace (rev rest @ [b, a]) = dropWhile isSpace (rev rest) @ [b, a]"
    using assms(2) by (simp add: dropWhile_append)
  then show ?thesis using assms(1) by (simp add: trim_def)
qed

lemma trim_Nil_iff: "(trim s = []) = (\<forall>c\<in>set s. isSpace c)"
proof
  assume "trim s = []"
  then have "dropWhile isSpace (rev (dropWhile isSpace s)) = []" by (simp add: trim_def)
  then have "\<forall>c\<in>set (dropWhile isSpace s). isSpace c"
    by (simp add: dropWhile_eq_Nil_conv)
  then have "dropWhile isSpace s = []"
    by (metis hd_dropWhile list.set_sel(1))
  then show "\<forall>c\<in>set s. isSpace c" by (simp add: dropWhile_eq_Nil_conv)
next
  assume "\<forall>c\<in>set s. isSpace c"
  then have "dropWhile isSpace s = []" by (simp add: dropWhile_eq_Nil_conv)
  then show "trim s = []" unfolding trim_def by (simp only: rev.simps dropWhile.simps)
qed

lemma dropWhile_keeps: "c \<in> set xs \<Longrightarrow> \<not> P c \<Longrightarrow> c \<in> set (dropWhile P xs)"
  by (induction xs) auto

lemma collapseSpaces_keeps:
  "c \<in> set s \<Longrightarrow> \<not> isSpace c \<Longrightarrow> c \<in> set (collapseSpaces s)"
proof (induction s rule: collapseSpaces.induct)
  case 1
  then show ?case by simp
next
  case (2 x xs)
  show ?case
  proof (cases "isSpace x")
    case True
    with 2(3,4) have "c \<in> set xs" by auto
    then have "c \<in> set (dropWhile isSpace xs)" using 2(4) by (rule dropWhile_keeps)
    then show ?thesis using 2(1)[OF True] 2(4) True by simp
  next
    case False
    then show ?thesis using 2(2)[OF False] 2(3,4) by auto
  qed
qed

lemma cleanText_Nil_no_digit:
  assumes "cleanText t = []" and "c \<in> set t"
  shows "\<not> isDigit c"
proof
  assume d: "isDigit c"
  then have ns: "\<not> isSpace c" by (rule isDigit_not_isSpace)
  then have "c \<in> set (collapseSpaces t)" using assms(2) collapseSpaces_keeps by blast
  then have "c \<in> set (blankSpecials (collapseSpaces t))"
    using d by (force simp: blankSpecials_def isDigit_isWord)
  moreover have "\<forall>x\<in>set (blankSpecials (collapseSpaces t)). isSpace x"
    using assms(1) by (simp add: cleanText_def trim_Nil_iff)
  ultimately show False using ns by blast
qed

lemma fourDigitMatch_no_digit:
  "\<forall>c\<in>set s. \<not> isDigit c \<Longrightarrow> fourDigitMatch prev s = None"
proof (induction s arbitrary: prev)
  case Nil
  then show ?case by simp
next
  case (Cons c cs)
  have "\<not> fourDigitAt prev (c # cs)"
    using Cons.prems unfolding fourDigitAt_shape by (auto simp: isDigit_literals)
  then show ?case using Cons by simp
qed

lemma twoDigitMatch_no_digit:
  "\<forall>c\<in>set s. \<not> isDigit c \<Longrightarrow> twoDigitMatch s = None"
proof (induction s)
  case Nil
  then show ?case by simp
next
  case (Cons c cs)
  have "\<not> twoDigitAt (c # cs)"
    using Cons.prems unfolding twoDigitAt_shape by auto
  then show ?case using Cons by simp
qed

lemma cleanText_Nil_no_year: "cleanText t = [] \<Longrightarrow> extractYear t = None"
  using cleanText_Nil_no_digit[of t]
  by (simp add: extractYear_def fourDigitMatch_no_digit twoDigitMatch_no_digit)

lemma lineStep_blank: "cleanText (trim line) = [] \<Longrightarrow> lineStep vehicles line = vehicles"
  by (simp add: lineStep_def assemble_def Let_def cleanText_Nil_no_year)

text \<open>Where the two-digit rule fires at position \<open>i\<close>, the remainder is cut at
  \<open>i + 1\<close>, and trimming keeps the two digits that stand there.\<close>

lemma twoDigit_remainder:
  assumes "fourDigitMatch None text = None" and "twoDigitMatch text = Some i"
  shows "(\<exists>yr. extractYear text = Some (yr, trim (drop (i + 1) text)))
     \<and> prefix (take 2 (drop (i + 1) text)) (trim (drop (i + 1) text))"
proof -
  from twoDigit_year[OF assms(2)] obtain p a b rest where
    r: "drop i text = p # a # b # rest" and ab: "isDigit a" "isDigit b"
    and m0: "take 3 (drop i text) = [p, a, b]"
    and tw: "take 2 (drop (i + 1) text) = [a, b]" by blast
  have tw': "take 2 (drop (Suc i) text) = [a, b]" using tw by simp
  have d: "drop (i + 1) text = a # b # rest" using drop_Cons_charAt[OF r] by simp
  have "trim (drop (i + 1) text) = a # b # rev (dropWhile isSpace (rev rest))"
    unfolding d using ab by (simp add: trim_keeps_two isDigit_not_isSpace)
  then have "prefix (take 2 (drop (i + 1) text)) (trim (drop (i + 1) text))"
    using tw by simp
  moreover have "\<exists>yr. extractYear text = Some (yr, trim (drop (i + 1) text))"
    using assms by (simp add: extractYear_def Let_def m0 tw')
  ultimately show ?thesis by blast
qed

section \<open>The claims of the specification\<close>

text \<open>
  Claim C1. On the three-line input \<open>2015 CHEVROLETIMPALA\<close>, \<open>YARD ROW 3\<close>,
  \<open>99 FORD F150\<close> the parser is said to return the records
  \<open>2015 CHEVROLET IMPALA\<close> and \<open>1999 FORD F150\<close>. The code returns the first
  record, drops the yard line, and turns the third line into a record without year,
  make and model: the two-digit pattern asks for a character before the two digits,
  and a trimmed line that begins with them has none.
\<close>

theorem parseVehicles_end_to_end:
  "parseVehicles ''2015 CHEVROLETIMPALA\<newline>YARD ROW 3\<newline>99 FORD F150'' =
     [\<lparr>year = ''2015'', make' = ''CHEVROLET'', model = ''IMPALA'',
        fullText = ''2015 CHEVROLET IMPALA''\<rparr>,
      \<lparr>year = '''', make' = '''', model = '''', fullText = ''99 FORD F150''\<rparr>]"
  by code_simp

text \<open>
  Claim C2. When the two-digit rule fires, the remainder is said to be the text behind
  the two digits. The code computes the start of the remainder as
  \<open>index + length match0 - length twoDigit\<close>, the position of the first of the two
  digits, so the remainder begins with them: on \<open>. 05CHEVROLET IMPALA\<close> it is
  \<open>05CHEVROLET IMPALA\<close>, and the record made from it has the make \<open>05CHEVROLET\<close>.
  In general, where the rule fires at position \<open>i\<close> the remainder is the trimmed
  text from position \<open>i + 1\<close> on, and the two digits are its first two characters.
\<close>

theorem extractYear_two_digit_remainder:
  "(fourDigitMatch None text = None \<and> twoDigitMatch text = Some i \<longrightarrow>
      (\<exists>yr. extractYear text = Some (yr, trim (drop (i + 1) text)))
      \<and> prefix (take 2 (drop (i + 1) text)) (trim (drop (i + 1) text)))
   \<and> extractYear ''. 05CHEVROLET IMPALA'' = Some (''2005'', ''05CHEVROLET IMPALA'')
   \<and> parseVehicles ''. 05CHEVROLET IMPALA'' =
       [\<lparr>year = ''2005'', make' = ''05CHEVROLET'', model = ''IMPALA'',
          fullText = ''2005 05CHEVROLET IMPALA''\<rparr>]"
proof (intro conjI impI)
  assume "fourDigitMatch None text = None \<and> twoDigitMatch text = Some i"
  then show "\<exists>yr. extractYear text = Some (yr, trim (drop (i + 1) text))"
    and "prefix (take 2 (drop (i + 1) text)) (trim (drop (i + 1) text))"
    using twoDigit_remainder by blast+
next
  show "extractYear ''. 05CHEVROLET IMPALA'' = Some (''2005'', ''05CHEVROLET IMPALA'')"
    by code_simp
  show "parseVehicles ''. 05CHEVROLET IMPALA'' =
       [\<lparr>year = ''2005'', make' = ''05CHEVROLET'', model = ''IMPALA'',
          fullText = ''2005 05CHEVROLET IMPALA''\<rparr>]"
    by code_simp
qed

text \<open>On \<open>LOT 7 05 KIA RIO\<close> the rule fires at position 5, the blank before \<open>05\<close>;
  the remainder is the text from position 6 on and begins with \<open>05\<close>.\<close>

theorem extractYear_two_digit_remainder_witness:
  "fourDigitMatch None ''LOT 7 05 KIA RIO'' = None
   \<and> twoDigitMatch ''LOT 7 05 KIA RIO'' = Some 5
   \<and> take 2 (drop (5 + 1) ''LOT 7 05 KIA RIO'') = ''05''
   \<and> trim (drop (5 + 1) ''LOT 7 05 KIA RIO'') = ''05 KIA RIO''
   \<and> prefix ''05'' ''05 KIA RIO''
   \<and> extractYear ''LOT 7 05 KIA RIO'' = Some (''2005'', ''05 KIA RIO'')"
proof -
  have h: "fourDigitMatch None ''LOT 7 05 KIA RIO'' = None
      \<and> twoDigitMatch ''LOT 7 05 KIA RIO'' = Some 5" by code_simp
  have t: "take 2 (drop (5 + 1) ''LOT 7 05 KIA RIO'') = ''05''" by code_simp
  have r: "trim (drop (5 + 1) ''LOT 7 05 KIA RIO'') = ''05 KIA RIO''" by code_simp
  have e: "extractYear ''LOT 7 05 KIA RIO'' = Some (''2005'', ''05 KIA RIO'')" by code_simp
  note inst = extractYear_two_digit_remainder[of "''LOT 7 05 KIA RIO''" 5]
  from inst h
  have "prefix (take 2 (drop (5 + 1) ''LOT 7 05 KIA RIO'')) (trim (drop (5 + 1) ''LOT 7 05 KIA RIO''))"
    by blast
  then have p: "prefix ''05'' ''05 KIA RIO''" unfolding t r .
  show ?thesis using h t r p e by blast
qed

text \<open>
  Claim C3. The marker \<open>Vehicle\<close> of the line filter never matches: the normalized
  text holds no lower-case letter, since upper-casing leaves none and the four
  substitutions only put in the digits 2, 0 and 1; every segmented line is made of
  characters of that text. Hence the parser returns, on every input, what the parser
  without the test for \<open>Vehicle\<close> returns.
\<close>

theorem vehicle_marker_never_matches:
  "(c \<in> set (fixOCRErrors text) \<longrightarrow> \<not> isLowerAZ c)
   \<and> (line \<in> set (segmentLines (fixOCRErrors text)) \<longrightarrow> \<not> includesStr (trim line) ''Vehicle'')
   \<and> parseVehicles text = parseVehicles_noVehicle text"
proof (intro conjI impI)
  assume "c \<in> set (fixOCRErrors text)"
  then show "\<not> isLowerAZ c" by (rule fixOCRErrors_not_lower)
next
  have nv: "\<not> includesStr (trim l) ''Vehicle''"
    if "l \<in> set (segmentLines (fixOCRErrors text))" for l
  proof (rule no_Vehicle_marker, rule ballI)
    fix c assume "c \<in> set (trim l)"
    then have "c \<in> set (fixOCRErrors text)"
      using trim_set segmentLines_set[OF that] by blast
    then show "\<not> isLowerAZ c" by (rule fixOCRErrors_not_lower)
  qed
  show "parseVehicles text = parseVehicles_noVehicle text"
    by (simp add: parseVehicles_def parseVehicles_noVehicle_def parseLoop_noVehicle_eq nv)
  assume "line \<in> set (segmentLines (fixOCRErrors text))"
  then show "\<not> includesStr (trim line) ''Vehicle''" by (rule nv)
qed

theorem vehicle_marker_never_matches_witness:
  "CHR ''E'' \<in> set (fixOCRErrors ''Vehicle list\<newline>2015 ford f150'')
   \<and> \<not> isLowerAZ CHR ''E''
   \<and> ''VEHICLE LIST'' \<in> set (segmentLines (fixOCRErrors ''Vehicle list\<newline>2015 ford f150''))
   \<and> \<not> includesStr (trim ''VEHICLE LIST'') ''Vehicle''
   \<and> parseVehicles ''Vehicle list\<newline>2015 ford f150'' =
       [\<lparr>year = '''', make' = '''', model = '''', fullText = ''VEHICLE LIST''\<rparr>,
        \<lparr>year = ''2015'', make' = ''FORD'', model = ''F150'', fullText = ''2015 FORD F150''\<rparr>]
   \<and> parseVehicles_noVehicle ''Vehicle list\<newline>2015 ford f150'' =
       [\<lparr>year = '''', make' = '''', model = '''', fullText = ''VEHICLE LIST''\<rparr>,
        \<lparr>year = ''2015'', make' = ''FORD'', model = ''F150'', fullText = ''2015 FORD F150''\<rparr>]"
proof -
  have h1: "CHR ''E'' \<in> set (fixOCRErrors ''Vehicle list\<newline>2015 ford f150'')" by code_simp
  have h2: "''VEHICLE LIST'' \<in> set (segmentLines (fixOCRErrors ''Vehicle list\<newline>2015 ford f150''))"
    by code_simp
  have p: "parseVehicles ''Vehicle list\<newline>2015 ford f150'' =
       [\<lparr>year = '''', make' = '''', model = '''', fullText = ''VEHICLE LIST''\<rparr>,
        \<lparr>year = ''2015'', make' = ''FORD'', model = ''F150'', fullText = ''2015 FORD F150''\<rparr>]"
    by code_simp
  note inst = vehicle_marker_never_matches[of "CHR ''E''" "''Vehicle list\<newline>2015 ford f150''"
      "''VEHICLE LIST''"]
  from inst h1 have a: "\<not> isLowerAZ CHR ''E''" by blast
  from inst h2 have b: "\<not> includesStr (trim ''VEHICLE LIST'') ''Vehicle''" by blast
  from inst p have q: "parseVehicles_noVehicle ''Vehicle list\<newline>2015 ford f150'' =
       [\<lparr>year = '''', make' = '''', model = '''', fullText = ''VEHICLE LIST''\<rparr>,
        \<lparr>year = ''2015'', make' = ''FORD'', model = ''F150'', fullText = ''2015 FORD F150''\<rparr>]"
    by simp
  show ?thesis using h1 h2 a b p q by blast
qed

text \<open>
  Claim C4. Every record that \<open>parseVehicles\<close> returns has a non-empty \<open>fullText\<close>;
  a line that is empty after cleaning adds no record.
\<close>

theorem fullText_never_empty:
  "(v \<in> set (parseVehicles text) \<longrightarrow> fullText v \<noteq> [])
   \<and> (cleanText (trim line) = [] \<longrightarrow> lineStep vehicles line = vehicles)"
proof (intro conjI impI)
  have "\<forall>v\<in>set (parseLoop [] lines). fullText v \<noteq> []" for lines
  proof (rule parseLoop_invariant)
    fix vs :: "Vehicle list" and line
    assume "\<forall>v\<in>set vs. fullText v \<noteq> []"
    then show "\<forall>v\<in>set (lineStep vs line). fullText v \<noteq> []"
      using lineStep_cases[of vs line] by auto
  qed simp
  moreover assume "v \<in> set (parseVehicles text)"
  ultimately show "fullText v \<noteq> []"
    by (simp add: parseVehicles_def)
next
  assume "cleanText (trim line) = []"
  then show "lineStep vehicles line = vehicles" by (rule lineStep_blank)
qed

theorem fullText_never_empty_witness:
  "\<lparr>year = ''2015'', make' = ''FORD'', model = '''', fullText = ''2015 FORD''\<rparr>
      \<in> set (parseVehicles ''?? !! ??\<newline>2015 ford'')
   \<and> fullText \<lparr>year = ''2015'', make' = ''FORD'', model = '''', fullText = ''2015 FORD''\<rparr> \<noteq> []
   \<and> cleanText (trim ''?? !! ??'') = [] \<and> \<not> skipLine (trim ''?? !! ??'')
   \<and> lineStep [] ''?? !! ??'' = []"
proof -
  have h1: "\<lparr>year = ''2015'', make' = ''FORD'', model = '''', fullText = ''2015 FORD''\<rparr>
      \<in> set (parseVehicles ''?? !! ??\<newline>2015 ford'')" by code_simp
  have h2: "cleanText (trim ''?? !! ??'') = [] \<and> \<not> skipLine (trim ''?? !! ??'')"
    by code_simp
  note inst = fullText_never_empty[of
      "\<lparr>year = ''2015'', make' = ''FORD'', model = '''', fullText = ''2015 FORD''\<rparr>"
      "''?? !! ??\<newline>2015 ford''" "''?? !! ??''" "[]"]
  from inst h1
  have a: "fullText \<lparr>year = ''2015'', make' = ''FORD'', model = '''', fullText = ''2015 FORD''\<rparr> \<noteq> []"
    by blast
  from inst h2 have b: "lineStep [] ''?? !! ??'' = []" by blast
  show ?thesis using h1 h2 a b by blast
qed

text \<open>
  Claim C5. If the text has a four-digit token \<open>19xx\<close> or \<open>20xx\<close> between word
  boundaries and \<open>i\<close> is the first position of such a token, \<open>extractYear\<close> returns
  these four digits as the year and the trimmed text behind them as the remainder,
  whether or not the two-digit pattern matches somewhere. On
  \<open>2015 CHEVROLET IMPALA\<close> it returns \<open>2015\<close> and \<open>CHEVROLET IMPALA\<close>.
\<close>

theorem extractYear_four_digit:
  "(yearTokenAt text i \<and> (\<forall>j<i. \<not> yearTokenAt text j) \<longrightarrow>
      extractYear text = Some (take 4 (drop i text), trim (drop (i + 4) text)))
   \<and> extractYear ''2015 CHEVROLET IMPALA'' = Some (''2015'', ''CHEVROLET IMPALA'')"
proof
  show "yearTokenAt text i \<and> (\<forall>j<i. \<not> yearTokenAt text j) \<longrightarrow>
      extractYear text = Some (take 4 (drop i text), trim (drop (i + 4) text))"
    using fourDigitMatch_first[of "text" i] by (simp add: extractYear_def)
  show "extractYear ''2015 CHEVROLET IMPALA'' = Some (''2015'', ''CHEVROLET IMPALA'')"
    by code_simp
qed

text \<open>In the text of the witness the two-digit pattern matches at position 1, before
  the four-digit token at position 10; the four-digit token is the one returned.\<close>

theorem extractYear_four_digit_witness:
  "yearTokenAt ''A 05 FORD 2015 F150'' 10
   \<and> twoDigitMatch ''A 05 FORD 2015 F150'' = Some 1
   \<and> extractYear ''A 05 FORD 2015 F150'' = Some (''2015'', ''F150'')"
proof -
  have m: "fourDigitMatch None ''A 05 FORD 2015 F150'' = Some 10" by code_simp
  have h: "yearTokenAt ''A 05 FORD 2015 F150'' 10
      \<and> (\<forall>j<10. \<not> yearTokenAt ''A 05 FORD 2015 F150'' j)"
    using fourDigitMatch_yearToken[OF m] .
  have t: "twoDigitMatch ''A 05 FORD 2015 F150'' = Some 1" by code_simp
  have v: "take 4 (drop 10 ''A 05 FORD 2015 F150'') = ''2015''
      \<and> trim (drop (10 + 4) ''A 05 FORD 2015 F150'') = ''F150''" by code_simp
  show ?thesis
    using h t v extractYear_four_digit[of "''A 05 FORD 2015 F150''" 10] by simp
qed

text \<open>
  Claim C6, as amended. \<open>splitMakeModel\<close> looks for the first listed make that is a
  strict prefix of the upper-cased text. If there is none, the text is returned
  unchanged. If there is one, the result is that make as the list spells it, one
  space, and the text from position \<open>length make\<close> on. For a text that upper-casing
  leaves unchanged this is the text with one space put in behind the make, as
  the specification words it. \<open>CHEVROLETIMPALA\<close> becomes \<open>CHEVROLET IMPALA\<close>.
\<close>

theorem splitMakeModel_first_make:
  "splitMakeModel text =
     (case find (\<lambda>mk. strict_prefix mk (toUpperCase text)) COMMON_MAKES of
        None \<Rightarrow> text
      | Some mk \<Rightarrow> mk @ '' '' @ drop (length mk) text)
   \<and> (toUpperCase text = text \<longrightarrow> splitMakeModel text = splitMakeModel_spec text)
   \<and> splitMakeModel ''CHEVROLETIMPALA'' = ''CHEVROLET IMPALA''"
proof (intro conjI impI)
  show eq: "splitMakeModel text =
     (case find (\<lambda>mk. strict_prefix mk (toUpperCase text)) COMMON_MAKES of
        None \<Rightarrow> text
      | Some mk \<Rightarrow> mk @ '' '' @ drop (length mk) text)"
    by (simp add: splitMakeModel_def splitLoop_find)
  show "splitMakeModel ''CHEVROLETIMPALA'' = ''CHEVROLET IMPALA''"
    by code_simp
  assume up: "toUpperCase text = text"
  show "splitMakeModel text = splitMakeModel_spec text"
  proof (cases "find (\<lambda>mk. strict_prefix mk (toUpperCase text)) COMMON_MAKES")
    case None
    then show ?thesis using eq by (simp add: splitMakeModel_spec_def)
  next
    case (Some mk)
    then have "strict_prefix mk text" using up by (auto simp: find_Some_iff)
    then have "take (length mk) text = mk"
      by (auto simp: strict_prefix_def prefix_def)
    then show ?thesis using eq Some by (simp add: splitMakeModel_spec_def)
  qed
qed

theorem splitMakeModel_first_make_witness:
  "toUpperCase ''FORDF150'' = ''FORDF150''
   \<and> splitMakeModel ''FORDF150'' = splitMakeModel_spec ''FORDF150''
   \<and> splitMakeModel ''FORDF150'' = ''FORD F150''"
proof -
  have h: "toUpperCase ''FORDF150'' = ''FORDF150''" by code_simp
  have v: "splitMakeModel ''FORDF150'' = ''FORD F150''" by code_simp
  from splitMakeModel_first_make[of "''FORDF150''"] h
  have "splitMakeModel ''FORDF150'' = splitMakeModel_spec ''FORDF150''" by blast
  with h v show ?thesis by blast
qed

text \<open>As the claim is stated, for every text, it fails on a text in lower case:
  \<open>FORD\<close> is a strict prefix of the upper-cased \<open>fordf150\<close>, the text with a space put
  in is \<open>ford f150\<close>, and the code returns \<open>FORD f150\<close>.\<close>

theorem splitMakeModel_lower_case_counterexample:
  "strict_prefix ''FORD'' (toUpperCase ''fordf150'')
   \<and> splitMakeModel ''fordf150'' = ''FORD f150''
   \<and> splitMakeModel_spec ''fordf150'' = ''ford f150''
   \<and> splitMakeModel ''fordf150'' \<noteq> splitMakeModel_spec ''fordf150''"
  by code_simp

text \<open>
  Claim C7. A segmented line whose trimmed text is shorter than five characters or
  contains \<open>YARD\<close>, \<open>ROW\<close> or \<open>LOCAT\<close> adds no record: the loop leaves the list of
  vehicles as it is on such a line, and the output of \<open>parseVehicles\<close> is the output of
  the loop on the segmented lines without these lines. The one-line input \<open>Ford\<close>
  gives no record.
\<close>

theorem noise_lines_give_no_record:
  "parseVehicles text =
     parseLoop [] (filter (\<lambda>line. \<not> noiseLine (trim line)) (segmentLines (fixOCRErrors text)))
   \<and> (noiseLine (trim line) \<longrightarrow> lineStep vehicles line = vehicles)
   \<and> parseVehicles ''Ford'' = []"
proof (intro conjI impI)
  show "parseVehicles text =
     parseLoop [] (filter (\<lambda>line. \<not> noiseLine (trim line)) (segmentLines (fixOCRErrors text)))"
    unfolding parseVehicles_def Let_def
    by (rule parseLoop_filter) (rule lineStep_noise)
  show "parseVehicles ''Ford'' = []" by code_simp
  assume "noiseLine (trim line)"
  then show "lineStep vehicles line = vehicles" by (rule lineStep_noise)
qed

theorem noise_lines_give_no_record_witness:
  "noiseLine (trim '' LOCATION A '')
   \<and> lineStep [\<lparr>year = ''2015'', make' = ''FORD'', model = ''F150'', fullText = ''2015 FORD F150''\<rparr>]
        '' LOCATION A ''
      = [\<lparr>year = ''2015'', make' = ''FORD'', model = ''F150'', fullText = ''2015 FORD F150''\<rparr>]
   \<and> parseVehicles ''2015 FORD F150\<newline>Ford\<newline>row 7\<newline>2016 KIA RIO''
      = parseLoop [] [''2015 FORD F150'', ''2016 KIA RIO'']"
proof -
  have h: "noiseLine (trim '' LOCATION A '')" by code_simp
  have f: "filter (\<lambda>line. \<not> noiseLine (trim line))
             (segmentLines (fixOCRErrors ''2015 FORD F150\<newline>Ford\<newline>row 7\<newline>2016 KIA RIO''))
           = [''2015 FORD F150'', ''2016 KIA RIO'']" by code_simp
  show ?thesis
    using h f
      noise_lines_give_no_record[of "''2015 FORD F150\<newline>Ford\<newline>row 7\<newline>2016 KIA RIO''" "'' LOCATION A ''"
        "[\<lparr>year = ''2015'', make' = ''FORD'', model = ''F150'', fullText = ''2015 FORD F150''\<rparr>]"]
    by simp
qed

text \<open>
  Claim C8. A line on which the year is found while the remainder, split and cleaned,
  has no token adds no record: the loop leaves the list of vehicles as it is, and the
  output of \<open>parseVehicles\<close> is the output of the loop on the segmented lines without
  these lines, so the records of the other lines are the same. The model has no error
  value: \<open>parseVehicles\<close> is a total function into lists of records.
\<close>

theorem year_only_lines_give_no_record:
  "parseVehicles text =
     parseLoop [] (filter (\<lambda>line. \<not> yearOnly (trim line)) (segmentLines (fixOCRErrors text)))
   \<and> (yearOnly (trim line) \<longrightarrow> lineStep vehicles line = vehicles)"
proof (intro conjI impI)
  show "parseVehicles text =
     parseLoop [] (filter (\<lambda>line. \<not> yearOnly (trim line)) (segmentLines (fixOCRErrors text)))"
    unfolding parseVehicles_def Let_def
    by (rule parseLoop_filter) (rule lineStep_yearOnly)
  assume "yearOnly (trim line)"
  then show "lineStep vehicles line = vehicles" by (rule lineStep_yearOnly)
qed

theorem year_only_lines_give_no_record_witness:
  "\<not> skipLine (trim ''2015 ...'') \<and> yearOnly (trim ''2015 ...'')
   \<and> extractYear (trim ''2015 ...'') = Some (''2015'', ''...'')
   \<and> lineStep [\<lparr>year = ''2015'', make' = ''FORD'', model = ''F150'', fullText = ''2015 FORD F150''\<rparr>]
        ''2015 ...''
      = [\<lparr>year = ''2015'', make' = ''FORD'', model = ''F150'', fullText = ''2015 FORD F150''\<rparr>]
   \<and> parseVehicles ''2015 FORD F150\<newline>2015 ...\<newline>2016 KIA RIO''
      = parseLoop [] [''2015 FORD F150'', ''2016 KIA RIO'']
   \<and> parseVehicles ''2015 FORD F150\<newline>2015 ...\<newline>2016 KIA RIO''
      = parseVehicles ''2015 FORD F150\<newline>2016 KIA RIO''"
proof -
  have h: "\<not> skipLine (trim ''2015 ...'') \<and> yearOnly (trim ''2015 ...'')
     \<and> extractYear (trim ''2015 ...'') = Some (''2015'', ''...'')" by code_simp
  have f: "filter (\<lambda>line. \<not> yearOnly (trim line))
             (segmentLines (fixOCRErrors ''2015 FORD F150\<newline>2015 ...\<newline>2016 KIA RIO''))
           = [''2015 FORD F150'', ''2016 KIA RIO'']" by code_simp
  have g: "parseVehicles ''2015 FORD F150\<newline>2016 KIA RIO''
           = parseLoop [] [''2015 FORD F150'', ''2016 KIA RIO'']" by code_simp
  show ?thesis
    using h f g
      year_only_lines_give_no_record[of "''2015 FORD F150\<newline>2015 ...\<newline>2016 KIA RIO''" "''2015 ...''"
        "[\<lparr>year = ''2015'', make' = ''FORD'', model = ''F150'', fullText = ''2015 FORD F150''\<rparr>]"]
    by simp
qed

text \<open>
  Claim C9. The year of every record that \<open>parseVehicles\<close> returns is empty or a
  numeral of four digits between 1900 and 2099, because every year that \<open>extractYear\<close>
  returns is such a numeral. When the two-digit rule fires, the year is the two digits
  behind \<open>20\<close> if their value is at most 30 and behind \<open>19\<close> otherwise, the value lying
  between 0 and 99.
\<close>

theorem year_field_range:
  "(v \<in> set (parseVehicles text) \<longrightarrow> year v = [] \<or> isYearNumeral (year v))
   \<and> (extractYear line = Some (y, r) \<longrightarrow> isYearNumeral y)
   \<and> (fourDigitMatch None line = None \<and> twoDigitMatch line = Some i \<longrightarrow>
        (\<exists>rest. extractYear line =
           Some ((if parseInt (take 2 (drop (i + 1) line)) \<le> 30 then ''20'' else ''19'')
                   @ take 2 (drop (i + 1) line), rest))
        \<and> 0 \<le> parseInt (take 2 (drop (i + 1) line))
        \<and> parseInt (take 2 (drop (i + 1) line)) \<le> 99)"
proof (intro conjI impI)
  have "\<forall>v\<in>set (parseLoop [] lines). year v = [] \<or> isYearNumeral (year v)" for lines
  proof (rule parseLoop_invariant)
    fix vs :: "Vehicle list" and line
    assume "\<forall>v\<in>set vs. year v = [] \<or> isYearNumeral (year v)"
    then show "\<forall>v\<in>set (lineStep vs line). year v = [] \<or> isYearNumeral (year v)"
      using lineStep_cases[of vs line] extractYear_year by auto
  qed simp
  moreover assume "v \<in> set (parseVehicles text)"
  ultimately show "year v = [] \<or> isYearNumeral (year v)"
    by (simp add: parseVehicles_def)
next
  assume "extractYear line = Some (y, r)"
  then show "isYearNumeral y" by (rule extractYear_year)
next
  assume a: "fourDigitMatch None line = None \<and> twoDigitMatch line = Some i"
  then obtain p a b rest where ab: "isDigit a" "isDigit b"
    and tw: "take 2 (drop (i + 1) line) = [a, b]"
    using twoDigit_year[of line i] by blast
  have tw': "take 2 (drop (Suc i) line) = [a, b]" using tw by simp
  have rng: "0 \<le> parseInt [a, b] \<and> parseInt [a, b] \<le> 99"
    using digitValue_range[OF ab(1)] digitValue_range[OF ab(2)] by (simp add: parseInt_2)
  show "\<exists>rest. extractYear line =
           Some ((if parseInt (take 2 (drop (i + 1) line)) \<le> 30 then ''20'' else ''19'')
                   @ take 2 (drop (i + 1) line), rest)"
    using a rng by (simp add: extractYear_def Let_def tw')
  show "0 \<le> parseInt (take 2 (drop (i + 1) line))"
    and "parseInt (take 2 (drop (i + 1) line)) \<le> 99"
    using rng tw by simp_all
qed

theorem year_field_range_witness:
  "\<lparr>year = ''2015'', make' = ''FORD'', model = '''', fullText = ''2015 FORD''\<rparr>
      \<in> set (parseVehicles ''2015 ford'')
   \<and> isYearNumeral ''2015''
   \<and> extractYear ''LOT 7 85 KIA RIO'' = Some (''1985'', ''85 KIA RIO'')
   \<and> isYearNumeral ''1985''
   \<and> fourDigitMatch None ''LOT 7 85 KIA RIO'' = None
   \<and> twoDigitMatch ''LOT 7 85 KIA RIO'' = Some 5
   \<and> parseInt (take 2 (drop (5 + 1) ''LOT 7 85 KIA RIO'')) = 85"
proof -
  have h1: "\<lparr>year = ''2015'', make' = ''FORD'', model = '''', fullText = ''2015 FORD''\<rparr>
      \<in> set (parseVehicles ''2015 ford'')" by code_simp
  have h2: "extractYear ''LOT 7 85 KIA RIO'' = Some (''1985'', ''85 KIA RIO'')" by code_simp
  have h3: "fourDigitMatch None ''LOT 7 85 KIA RIO'' = None
      \<and> twoDigitMatch ''LOT 7 85 KIA RIO'' = Some 5" by code_simp
  have p: "parseInt (take 2 (drop (5 + 1) ''LOT 7 85 KIA RIO'')) = 85" by code_simp
  note inst = year_field_range[of
      "\<lparr>year = ''2015'', make' = ''FORD'', model = '''', fullText = ''2015 FORD''\<rparr>"
      "''2015 ford''" "''LOT 7 85 KIA RIO''" "''1985''" "''85 KIA RIO''" 5]
  from inst h1 have a: "isYearNumeral ''2015''" by auto
  from inst h2 have b: "isYearNumeral ''1985''" by blast
  show ?thesis using h1 h2 h3 p a b by blast
qed

text \<open>
  Claim C10, as amended. A match of the two-digit pattern at position \<open>i\<close> has a character that is
  not a digit at \<open>i\<close> and the two-digit token at \<open>i + 1\<close>, so the token is never at
  the very start of the text. Consequently, if the text has no four-digit year token
  and no year-like two-digit pair other than a leading one, \<open>extractYear\<close> returns
  nothing; and a line that passes the filter and has no year gives the fallback record
  with empty year, make and model if its cleaned text is non-empty, and no record
  otherwise. \<open>99 FORD F150\<close> is such a line.
\<close>

theorem leading_two_digit_pair:
  "(twoDigitMatch text = Some i \<longrightarrow>
      (\<exists>p. charAt text i = Some p \<and> \<not> isDigit p) \<and> twoDigitTokenAt text (i + 1))
   \<and> ((\<forall>i<length text. \<not> yearTokenAt text i)
        \<and> (\<forall>k<length text. yearLikePairAt text k \<longrightarrow> k = 0)
      \<longrightarrow> extractYear text = None)
   \<and> (extractYear (trim line) = None \<and> \<not> skipLine (trim line) \<longrightarrow>
        lineStep vehicles line =
          (if cleanText (trim line) = [] then vehicles
           else vehicles @ [\<lparr>year = '''', make' = '''', model = '''',
                             fullText = cleanText (trim line)\<rparr>]))
   \<and> extractYear ''99 FORD F150'' = None
   \<and> parseVehicles ''99 FORD F150'' =
       [\<lparr>year = '''', make' = '''', model = '''', fullText = ''99 FORD F150''\<rparr>]"
proof (intro conjI impI)
  assume "twoDigitMatch text = Some i"
  then show "\<exists>p. charAt text i = Some p \<and> \<not> isDigit p" and "twoDigitTokenAt text (i + 1)"
    using twoDigitMatch_token by blast+
next
  assume a: "(\<forall>i<length text. \<not> yearTokenAt text i)
     \<and> (\<forall>k<length text. yearLikePairAt text k \<longrightarrow> k = 0)"
  have four: "fourDigitMatch None text = None"
  proof (cases "fourDigitMatch None text")
    case (Some i)
    then have "yearTokenAt text i" using fourDigitMatch_yearToken by blast
    then show ?thesis using a yearTokenAt_bound by blast
  qed simp
  have two: "twoDigitMatch text = None"
  proof (cases "twoDigitMatch text")
    case (Some i)
    then have y: "yearLikePairAt text (i + 1)" by (rule twoDigitMatch_yearLike)
    then have "i + 1 < length text" by (rule yearLikePairAt_bound)
    with a y have "i + 1 = 0" by blast
    then show ?thesis by simp
  qed simp
  show "extractYear text = None" using four two by (simp add: extractYear_def)
next
  assume "extractYear (trim line) = None \<and> \<not> skipLine (trim line)"
  then show "lineStep vehicles line =
          (if cleanText (trim line) = [] then vehicles
           else vehicles @ [\<lparr>year = '''', make' = '''', model = '''',
                             fullText = cleanText (trim line)\<rparr>])"
    using lineStep_fallback by blast
next
  show "extractYear ''99 FORD F150'' = None" by code_simp
  show "parseVehicles ''99 FORD F150'' =
       [\<lparr>year = '''', make' = '''', model = '''', fullText = ''99 FORD F150''\<rparr>]"
    by code_simp
qed

theorem leading_two_digit_pair_witness:
  "twoDigitMatch ''LOT 7 05 KIA RIO'' = Some 5
   \<and> charAt ''LOT 7 05 KIA RIO'' 5 = Some CHR '' ''
   \<and> twoDigitTokenAt ''LOT 7 05 KIA RIO'' 6
   \<and> yearLikePairAt ''99 FORD F150'' 0
   \<and> fourDigitMatch None ''99 FORD F150'' = None
   \<and> twoDigitMatch ''99 FORD F150'' = None
   \<and> extractYear ''99 FORD F150'' = None
   \<and> extractYear (trim ''99 FORD F150'') = None \<and> \<not> skipLine (trim ''99 FORD F150'')
   \<and> lineStep [] ''99 FORD F150'' =
        [\<lparr>year = '''', make' = '''', model = '''', fullText = ''99 FORD F150''\<rparr>]"
proof -
  have m: "twoDigitMatch ''LOT 7 05 KIA RIO'' = Some 5" by code_simp
  have c: "charAt ''LOT 7 05 KIA RIO'' 5 = Some CHR '' ''" by code_simp
  have y0: "yearLikePairAt ''99 FORD F150'' 0" by code_simp
  have f: "fourDigitMatch None ''99 FORD F150'' = None" by code_simp
  have t: "twoDigitMatch ''99 FORD F150'' = None" by code_simp
  have h1: "\<forall>i<length ''99 FORD F150''. \<not> yearTokenAt ''99 FORD F150'' i"
    using fourDigitMatch_no_yearToken[OF f] by blast
  have h2: "\<forall>k<length ''99 FORD F150''. yearLikePairAt ''99 FORD F150'' k \<longrightarrow> k = 0"
    using twoDigitMatch_None_yearLike[OF t] by blast
  have tr: "trim ''99 FORD F150'' = ''99 FORD F150''" by code_simp
  have sk: "\<not> skipLine (trim ''99 FORD F150'')" by code_simp
  have cl: "cleanText (trim ''99 FORD F150'') = ''99 FORD F150''" by code_simp
  note inst = leading_two_digit_pair[of "''LOT 7 05 KIA RIO''" 5 "''99 FORD F150''" "[]"]
  from inst m have a: "twoDigitTokenAt ''LOT 7 05 KIA RIO'' (5 + 1)" by blast
  from inst h1 h2 have e: "extractYear ''99 FORD F150'' = None" by blast
  from inst e sk tr cl have l: "lineStep [] ''99 FORD F150'' =
        [\<lparr>year = '''', make' = '''', model = '''', fullText = ''99 FORD F150''\<rparr>]"
    by simp
  show ?thesis using m c a y0 f t e sk l tr by simp
qed

text \<open>As the claim is stated, for every line, it fails on a line that the noise
  filter skips. In \<open>99 CROWN VIC\<close> the only year-like token is the leading pair,
  there is no four-digit year token, \<open>extractYear\<close> returns nothing and the cleaned
  text is not empty; but \<open>CROWN\<close> contains \<open>ROW\<close>, so the loop skips the line and no
  fallback record is emitted.\<close>

theorem leading_two_digit_pair_skipped_counterexample:
  "yearLikePairAt ''99 CROWN VIC'' 0
   \<and> \<not> (\<exists>i. yearTokenAt ''99 CROWN VIC'' i)
   \<and> \<not> (\<exists>k. yearLikePairAt ''99 CROWN VIC'' k \<and> k \<noteq> 0)
   \<and> extractYear (trim ''99 CROWN VIC'') = None
   \<and> cleanText (trim ''99 CROWN VIC'') = ''99 CROWN VIC''
   \<and> skipLine (trim ''99 CROWN VIC'')
   \<and> lineStep [] ''99 CROWN VIC'' = []
   \<and> parseVehicles ''99 CROWN VIC'' = []"
proof -
  have y0: "yearLikePairAt ''99 CROWN VIC'' 0" by code_simp
  have f: "fourDigitMatch None ''99 CROWN VIC'' = None" by code_simp
  have t: "twoDigitMatch ''99 CROWN VIC'' = None" by code_simp
  have n4: "\<not> (\<exists>i. yearTokenAt ''99 CROWN VIC'' i)"
    using fourDigitMatch_no_yearToken[OF f] by blast
  have n2: "\<not> (\<exists>k. yearLikePairAt ''99 CROWN VIC'' k \<and> k \<noteq> 0)"
    using twoDigitMatch_None_yearLike[OF t] by blast
  have e: "extractYear (trim ''99 CROWN VIC'') = None" by code_simp
  have c: "cleanText (trim ''99 CROWN VIC'') = ''99 CROWN VIC''" by code_simp
  have s: "skipLine (trim ''99 CROWN VIC'')" by code_simp
  have l: "lineStep [] ''99 CROWN VIC'' = []" by code_simp
  have p: "parseVehicles ''99 CROWN VIC'' = []" by code_simp
  show ?thesis using y0 n4 n2 e c s l p by blast
qed

end
